theory Spec2Isabelle
  imports Complex_Main "HOL-Library.AList"
begin

section \<open>Python values and the built-ins the script calls\<close>

text \<open>
  The development embeds \<^verbatim>\<open>tools/stats/upload_test_stats.py\<close>. Strings are lists of
  ASCII characters. A Python dictionary is an association list with distinct keys
  in insertion order; \<^verbatim>\<open>d[k] = v\<close> is \<open>AList.update k v d\<close>, which replaces
  the value of an existing key in place and appends a new key at the end, as Python does.

  A Python float is represented by the exact rational value of the literal it was
  read from (\<open>Finite\<close>), or is an infinity or a NaN. Rounding to binary64 is left
  out: only whether a value is an \<^verbatim>\<open>int\<close>, a \<^verbatim>\<open>float\<close> or a \<^verbatim>\<open>str\<close>, and
  which number it denotes, is used below.
\<close>

datatype pyfloat = Finite rat | Infinity bool | NaN

datatype pyval =
    PyInt int
  | PyFloat pyfloat
  | PyStr string
  | PyDict "(string \<times> pyval) list"

type_synonym pydict = "(string \<times> pyval) list"

text \<open>The exceptions the script can raise from its own statements.\<close>

datatype error =
    ValueError
  | IndexError
  | KeyError
  | AssertionError
  | RuntimeError

subsection \<open>\<^verbatim>\<open>str.strip\<close>, \<^verbatim>\<open>str.split\<close>, \<^verbatim>\<open>str.rpartition\<close>, \<^verbatim>\<open>str.startswith\<close>\<close>

text \<open>
  \<^verbatim>\<open>str.isspace\<close> on the ASCII range: tab, line feed, vertical tab, form feed,
  carriage return, the four separators \<^verbatim>\<open>0x1C..0x1F\<close>, and the space.
\<close>

definition py_isspace :: "char \<Rightarrow> bool" where
  "py_isspace c \<longleftrightarrow>
     (let n = (of_char c :: nat) in (9 \<le> n \<and> n \<le> 13) \<or> (28 \<le> n \<and> n \<le> 32))"

definition py_strip :: "string \<Rightarrow> string" where
  "py_strip s = rev (dropWhile py_isspace (rev (dropWhile py_isspace s)))"

text \<open>\<^verbatim>\<open>s.split(sep)\<close> for a one-character separator: never an empty list.\<close>

fun py_split :: "char \<Rightarrow> string \<Rightarrow> string list" where
  "py_split sep [] = [[]]"
| "py_split sep (c # cs) =
     (if c = sep then [] # py_split sep cs
      else (case py_split sep cs of
              [] \<Rightarrow> [[c]]
            | p # ps \<Rightarrow> (c # p) # ps))"

text \<open>
  \<^verbatim>\<open>s.rpartition(sep)\<close>: the text before the last separator, the separator, and
  the text after it; two empty strings and \<open>s\<close> itself when \<open>s\<close> has no separator.
\<close>

definition py_rpartition :: "char \<Rightarrow> string \<Rightarrow> string \<times> string \<times> string" where
  "py_rpartition sep s =
     (if sep \<in> set s
      then (rev (tl (dropWhile (\<lambda>c. c \<noteq> sep) (rev s))), [sep],
            rev (takeWhile (\<lambda>c. c \<noteq> sep) (rev s)))
      else ([], [], s))"

definition py_startswith :: "string \<Rightarrow> string \<Rightarrow> bool" where
  "py_startswith s pre \<longleftrightarrow> take (length pre) s = pre"

subsection \<open>\<^verbatim>\<open>int(str)\<close> and \<^verbatim>\<open>float(str)\<close>\<close>

definition is_digit :: "char \<Rightarrow> bool" where
  "is_digit c \<longleftrightarrow> 48 \<le> (of_char c :: nat) \<and> (of_char c :: nat) \<le> 57"

definition digit_val :: "char \<Rightarrow> nat" where
  "digit_val c = of_char c - 48"

definition digits_val :: "string \<Rightarrow> nat" where
  "digits_val ds = foldl (\<lambda>a c. 10 * a + digit_val c) 0 ds"

text \<open>
  Both conversions accept single underscores between digits and nowhere else.
  \<open>drop_underscores prev s\<close> removes them, \<open>prev\<close> being the character before \<open>s\<close>;
  the result is \<open>None\<close> where an underscore is misplaced.
\<close>

fun drop_underscores :: "char option \<Rightarrow> string \<Rightarrow> string option" where
  "drop_underscores prev [] = (if prev = Some CHR ''_'' then None else Some [])"
| "drop_underscores prev (c # cs) =
     (if c = CHR ''_'' then
        (case prev of
           None \<Rightarrow> None
         | Some p \<Rightarrow> if is_digit p then drop_underscores (Some c) cs else None)
      else if prev = Some CHR ''_'' \<and> \<not> is_digit c then None
      else map_option ((#) c) (drop_underscores (Some c) cs))"

text \<open>An optional sign: whether it was a minus, and the rest.\<close>

fun split_sign :: "string \<Rightarrow> bool \<times> string" where
  "split_sign [] = (False, [])"
| "split_sign (c # cs) =
     (if c = CHR ''-'' then (True, cs)
      else if c = CHR ''+'' then (False, cs)
      else (False, c # cs))"

text \<open>
  \<^verbatim>\<open>int(s)\<close> in base ten: surrounding whitespace is dropped, then an optional
  sign and at least one digit; anything else raises \<^verbatim>\<open>ValueError\<close> (\<open>None\<close>).
\<close>

definition py_int :: "string \<Rightarrow> int option" where
  "py_int s =
     (case drop_underscores None (py_strip s) of
        None \<Rightarrow> None
      | Some t \<Rightarrow>
          (let (neg, ds) = split_sign t in
           if ds \<noteq> [] \<and> list_all is_digit ds
           then Some (if neg then - int (digits_val ds) else int (digits_val ds))
           else None))"

definition py_lower :: "char \<Rightarrow> char" where
  "py_lower c =
     (let n = (of_char c :: nat) in if 65 \<le> n \<and> n \<le> 90 then char_of (n + 32) else c)"

text \<open>The exponent of a float literal: \<^verbatim>\<open>e\<close> or \<^verbatim>\<open>E\<close>, an optional sign, digits.\<close>

definition float_exponent :: "string \<Rightarrow> int option" where
  "float_exponent r =
     (case r of
        [] \<Rightarrow> Some 0
      | c # t \<Rightarrow>
          if c = CHR ''e'' \<or> c = CHR ''E'' then
            (let (neg, ds) = split_sign t in
             if ds \<noteq> [] \<and> list_all is_digit ds
             then Some (if neg then - int (digits_val ds) else int (digits_val ds))
             else None)
          else None)"

definition scale10 :: "rat \<Rightarrow> int \<Rightarrow> rat" where
  "scale10 m e = (if 0 \<le> e then m * 10 ^ nat e else m / 10 ^ nat (- e))"

text \<open>
  The unsigned part of a float literal: \<^verbatim>\<open>inf\<close>, \<^verbatim>\<open>infinity\<close> or \<^verbatim>\<open>nan\<close> in
  any letter case, or digits with an optional point and an optional exponent, with at
  least one digit before or after the point.
\<close>

definition float_body :: "bool \<Rightarrow> string \<Rightarrow> pyfloat option" where
  "float_body neg b =
     (if map py_lower b = ''inf'' \<or> map py_lower b = ''infinity'' then Some (Infinity neg)
      else if map py_lower b = ''nan'' then Some NaN
      else
        (let ip = takeWhile is_digit b;
             r1 = dropWhile is_digit b;
             (fp, r2) = (case r1 of
                           [] \<Rightarrow> ([], [])
                         | c # t \<Rightarrow>
                             if c = CHR ''.'' then (takeWhile is_digit t, dropWhile is_digit t)
                             else ([], r1))
         in if ip = [] \<and> fp = [] then None
            else (case float_exponent r2 of
                    None \<Rightarrow> None
                  | Some e \<Rightarrow>
                      (let m = scale10 (of_nat (digits_val (ip @ fp))) (e - int (length fp))
                       in Some (Finite (if neg then - m else m))))))"

definition py_float :: "string \<Rightarrow> pyfloat option" where
  "py_float s =
     (case drop_underscores None (py_strip s) of
        None \<Rightarrow> None
      | Some t \<Rightarrow> (let (neg, b) = split_sign t in float_body neg b))"

section \<open>XML elements\<close>

text \<open>
  An \<^verbatim>\<open>xml.etree.ElementTree.Element\<close>: its tag, its attributes (name and value in
  document order), its inner text and trailing text (\<open>None\<close> where the parser found
  none), and its child elements. The field \<^verbatim>\<open>text\<close> is named \<open>el_text\<close> here and
  \<^verbatim>\<open>tail\<close> is named \<open>el_tail\<close>.
\<close>

datatype element =
  Element (tag: string) (attrib: "(string \<times> string) list")
          (el_text: "string option") (el_tail: "string option") (children: "element list")

text \<open>\<^verbatim>\<open>d.update(pairs)\<close>: one assignment per pair, in order.\<close>

definition dict_update :: "('k \<times> 'v) list \<Rightarrow> ('k \<times> 'v) list \<Rightarrow> ('k \<times> 'v) list" where
  "dict_update d pairs = fold (\<lambda>(k, v) acc. AList.update k v acc) pairs d"

text \<open>
  One round of the loop at lines 63 to 71. \<open>v\<close> is the attribute's string in both
  \<^verbatim>\<open>try\<close> blocks: the second block is entered whether or not the first one stored
  a value.
\<close>

definition coerce_item :: "string \<times> string \<Rightarrow> pydict \<Rightarrow> pydict" where
  "coerce_item kv ret =
     (let (k, v) = kv;
          ret1 = (case py_int v of
                    Some i \<Rightarrow> AList.update k (PyInt i) ret
                  | None \<Rightarrow> ret);
          ret2 = (case py_float v of
                    Some f \<Rightarrow> AList.update k (PyFloat f) ret1
                  | None \<Rightarrow> ret1)
      in ret2)"

text \<open>The test \<^verbatim>\<open>element.text and element.text.strip()\<close>.\<close>

definition truthy_stripped :: "string option \<Rightarrow> bool" where
  "truthy_stripped t = (case t of None \<Rightarrow> False | Some s \<Rightarrow> s \<noteq> [] \<and> py_strip s \<noteq> [])"

definition store_text :: "string \<Rightarrow> string option \<Rightarrow> pydict \<Rightarrow> pydict" where
  "store_text key t ret =
     (if truthy_stripped t then AList.update key (PyStr (the t)) ret else ret)"

text \<open>
  \<^verbatim>\<open>process_xml_element\<close>. \<open>items\<close> is \<^verbatim>\<open>ret\<close> after \<^verbatim>\<open>ret.update(element.attrib)\<close>,
  with its values still strings; the coercion loop runs over these items and assigns
  into \<^verbatim>\<open>ret\<close>; then the text, the tail, and the children in document order.
\<close>

fun process_xml_element :: "element \<Rightarrow> pydict" where
  "process_xml_element (Element tg attrs tx ta cs) =
     (let items = dict_update [] attrs;
          ret0 = map (\<lambda>(k, v). (k, PyStr v)) items;
          ret1 = fold coerce_item items ret0;
          ret2 = store_text ''text'' tx ret1;
          ret3 = store_text ''tail'' ta ret2
      in fold (\<lambda>child ret. AList.update (tag child) (PyDict (process_xml_element child)) ret)
           cs ret3)"

section \<open>Paths\<close>

text \<open>
  A \<^verbatim>\<open>pathlib.Path\<close> on a POSIX system is the tuple of its parts: the root
  (\<^verbatim>\<open>/\<close>, or \<^verbatim>\<open>//\<close> for exactly two leading slashes) when the path is absolute,
  then every component that is neither empty nor a single dot.
\<close>

type_synonym path = "string list"

definition Path :: "string \<Rightarrow> path" where
  "Path s =
     (let comps = filter (\<lambda>p. p \<noteq> [] \<and> p \<noteq> ''.'') (py_split CHR ''/'' s);
          root = (if py_startswith s ''//'' \<and> \<not> py_startswith s ''///'' then [''//'']
                  else if py_startswith s ''/'' then [''/'']
                  else [])
      in root @ comps)"

text \<open>\<^verbatim>\<open>p.name\<close>: the last part, empty when the path is empty or only a root.\<close>

definition path_name :: "path \<Rightarrow> string" where
  "path_name ps = (if ps = [] \<or> ps = [''/''] \<or> ps = [''//''] then [] else last ps)"

fun py_join :: "string \<Rightarrow> string list \<Rightarrow> string" where
  "py_join sep [] = []"
| "py_join sep [x] = x"
| "py_join sep (x # y # ys) = x @ sep @ py_join sep (y # ys)"

text \<open>\<^verbatim>\<open>str(p)\<close>.\<close>

definition path_str :: "path \<Rightarrow> string" where
  "path_str ps =
     (case ps of
        [] \<Rightarrow> ''.''
      | r # rest \<Rightarrow>
          if r = ''/'' \<or> r = ''//'' then r @ py_join ''/'' rest else py_join ''/'' ps)"

text \<open>
  \<^verbatim>\<open>p.stem\<close>: the name up to its last dot, when that dot is neither the first nor the
  last character of the name; the whole name otherwise.
\<close>

definition path_stem :: "path \<Rightarrow> string" where
  "path_stem ps =
     (let name = path_name ps in
      case py_rpartition CHR ''.'' name of
        (h, dot, t) \<Rightarrow> if dot \<noteq> [] \<and> h \<noteq> [] \<and> t \<noteq> [] then h else name)"

text \<open>
  \<^verbatim>\<open>p.with_name(name)\<close> raises \<^verbatim>\<open>ValueError\<close> when \<open>p\<close> has an empty name or
  \<open>name\<close> is not a single component.
\<close>

definition with_name :: "path \<Rightarrow> string \<Rightarrow> error + path" where
  "with_name ps name =
     (if path_name ps = [] then Inl ValueError
      else if name = [] \<or> CHR ''/'' \<in> set name \<or> name = ''.'' then Inl ValueError
      else Inr (butlast ps @ [name]))"

section \<open>Report normalization\<close>

text \<open>
  \<^verbatim>\<open>Element.iter(tag)\<close>: the element and its descendants in document order, those
  whose tag is \<open>t\<close>; the tag \<^verbatim>\<open>*\<close> selects every element.
\<close>

fun iter :: "string \<Rightarrow> element \<Rightarrow> element list" where
  "iter t (Element tg attrs tx ta cs) =
     (if t = ''*'' \<or> tg = t then [Element tg attrs tx ta cs] else [])
     @ concat (map (iter t) cs)"

text \<open>
  \<^verbatim>\<open>parse_xml_report\<close>. \<open>et_parse\<close> stands for \<^verbatim>\<open>ET.parse\<close> on the files of the
  working directory and gives the root element of a report; the two \<^verbatim>\<open>print\<close>
  calls are left out. The job id is read before the file is parsed.
\<close>

definition parse_xml_report ::
  "(path \<Rightarrow> element) \<Rightarrow> string \<Rightarrow> path \<Rightarrow> int \<Rightarrow> int \<Rightarrow> error + pydict list" where
  "parse_xml_report et_parse tg report workflow_id workflow_run_attempt =
     (case report of
        [] \<Rightarrow> Inl IndexError
      | part0 # _ \<Rightarrow>
          (case py_int (snd (snd (py_rpartition CHR ''_'' part0))) of
             None \<Rightarrow> Inl ValueError
           | Some job_id \<Rightarrow>
               Inr (map (\<lambda>test_case.
                           AList.update ''job_id'' (PyInt job_id)
                             (AList.update ''workflow_run_attempt'' (PyInt workflow_run_attempt)
                               (AList.update ''workflow_id'' (PyInt workflow_id)
                                 (process_xml_element test_case))))
                        (iter tg (et_parse report)))))"

section \<open>Artifact retrieval\<close>

text \<open>
  The effects of the retrieval functions are recorded in order: what was printed, which
  file was written with which content, and which archive was extracted into which
  directory. The calls into the object-storage SDK, the HTTP library, the file system
  and the zip library are taken to succeed; the exceptions of the script's own
  statements are results of the model. A function returns the exception it raised, if
  any, and the effects up to that point.
\<close>

datatype message =
    SkippingInvalidRunAttempt path int int
  | DownloadingAndExtracting path

datatype event =
    Print message
  | Write path string
  | ExtractAll path path

type_synonym world = "event list"

text \<open>\<^verbatim>\<open>p.is_file()\<close>: a file was written at \<open>p\<close>.\<close>

definition is_file :: "path \<Rightarrow> world \<Rightarrow> bool" where
  "is_file p w = list_ex (\<lambda>e. case e of Write q c \<Rightarrow> q = p | _ \<Rightarrow> False) w"

definition unzip :: "path \<Rightarrow> world \<Rightarrow> error option \<times> world" where
  "unzip p w =
     (if \<not> is_file p w then (Some AssertionError, w)
      else (case with_name p (''unzipped-'' @ path_stem p) of
              Inl e \<Rightarrow> (Some e, w)
            | Inr unzipped_dir \<Rightarrow> (None, w @ [ExtractAll p unzipped_dir])))"

text \<open>\<^verbatim>\<open>os.environ["GITHUB_TOKEN"]\<close> raises \<^verbatim>\<open>KeyError\<close> when the variable is unset.\<close>

definition get_request_headers :: "(string \<rightharpoonup> string) \<Rightarrow> error + (string \<times> string) list" where
  "get_request_headers environ =
     (case environ ''GITHUB_TOKEN'' of
        None \<Rightarrow> Inl KeyError
      | Some token \<Rightarrow>
          Inr [(''Accept'', ''application/vnd.github.v3+json''),
               (''Authorization'', ''token '' @ token)])"

text \<open>The loop over the atoms of an artifact name, lines 139 to 146.\<close>

fun check_run_attempt :: "path \<Rightarrow> int \<Rightarrow> string list \<Rightarrow> world \<Rightarrow> error option \<times> world" where
  "check_run_attempt artifact_name workflow_run_attempt [] w = (None, w)"
| "check_run_attempt artifact_name workflow_run_attempt (atom # atoms) w =
     (if py_startswith atom ''runattempt'' then
        (case py_int (drop (length ''runattempt'') atom) of
           None \<Rightarrow> (Some ValueError, w)
         | Some found_run_attempt \<Rightarrow>
             check_run_attempt artifact_name workflow_run_attempt atoms
               (if workflow_run_attempt \<noteq> found_run_attempt
                then w @ [Print (SkippingInvalidRunAttempt artifact_name
                                   workflow_run_attempt found_run_attempt)]
                else w))
      else check_run_attempt artifact_name workflow_run_attempt atoms w)"

text \<open>
  \<^verbatim>\<open>download_and_extract_artifact\<close>. \<open>environ\<close> is \<^verbatim>\<open>os.environ\<close> and
  \<open>requests_get url headers\<close> is the content of the response to the request.
\<close>

definition download_and_extract_artifact ::
  "(string \<rightharpoonup> string) \<Rightarrow> (string \<Rightarrow> (string \<times> string) list \<Rightarrow> string) \<Rightarrow>
   path \<Rightarrow> string \<Rightarrow> int \<Rightarrow> world \<Rightarrow> error option \<times> world" where
  "download_and_extract_artifact environ requests_get artifact_name artifact_url
       workflow_run_attempt w =
     (case check_run_attempt artifact_name workflow_run_attempt
             (py_split CHR ''-'' (path_str artifact_name)) w of
        (Some e, w1) \<Rightarrow> (Some e, w1)
      | (None, w1) \<Rightarrow>
          (let w2 = w1 @ [Print (DownloadingAndExtracting artifact_name)] in
           case get_request_headers environ of
             Inl e \<Rightarrow> (Some e, w2)
           | Inr headers \<Rightarrow>
               (let w3 = w2 @ [Write artifact_name (requests_get artifact_url headers)]
                in unzip artifact_name w3)))"

text \<open>\<^verbatim>\<open>str(n)\<close> for an integer, as the f-string of the key prefix formats it.\<close>

fun nat_digits :: "nat \<Rightarrow> string" where
  "nat_digits n =
     (if n < 10 then [char_of (48 + n)]
      else nat_digits (n div 10) @ [char_of (48 + n mod 10)])"

declare nat_digits.simps [simp del]

definition py_str_int :: "int \<Rightarrow> string" where
  "py_str_int i = (if i < 0 then CHR ''-'' # nat_digits (nat (- i)) else nat_digits (nat i))"

record s3_object =
  key :: string
  body :: string

definition s3_prefix :: "int \<Rightarrow> int \<Rightarrow> string" where
  "s3_prefix workflow_run_id workflow_run_attempt =
     ''pytorch/pytorch/'' @ py_str_int workflow_run_id @ ''/''
       @ py_str_int workflow_run_attempt @ ''/artifact/test-reports''"

text \<open>
  \<^verbatim>\<open>bucket.objects.filter(Prefix=...)\<close>: the objects of the bucket whose key starts
  with the prefix, in listing order.
\<close>

definition objects_filter :: "s3_object list \<Rightarrow> string \<Rightarrow> s3_object list" where
  "objects_filter bucket pre = filter (\<lambda>obj. py_startswith (key obj) pre) bucket"

text \<open>The loop at lines 165 to 171, with the flag \<^verbatim>\<open>found_one\<close>.\<close>

fun s3_loop :: "s3_object list \<Rightarrow> bool \<Rightarrow> world \<Rightarrow> error option \<times> bool \<times> world" where
  "s3_loop [] found_one w = (None, found_one, w)"
| "s3_loop (obj # objs) found_one w =
     (let p = Path (path_name (Path (key obj)));
          w1 = w @ [Print (DownloadingAndExtracting p)];
          w2 = w1 @ [Write p (body obj)]
      in case unzip p w2 of
           (Some e, w3) \<Rightarrow> (Some e, True, w3)
         | (None, w3) \<Rightarrow> s3_loop objs True w3)"

text \<open>\<^verbatim>\<open>download_and_extract_s3_reports\<close>; \<open>bucket\<close> is the content of \<^verbatim>\<open>gha-artifacts\<close>.\<close>

definition download_and_extract_s3_reports ::
  "s3_object list \<Rightarrow> int \<Rightarrow> int \<Rightarrow> world \<Rightarrow> error option \<times> world" where
  "download_and_extract_s3_reports bucket workflow_run_id workflow_run_attempt w =
     (let objs = objects_filter bucket (s3_prefix workflow_run_id workflow_run_attempt) in
      case s3_loop objs False w of
        (Some e, found_one, w1) \<Rightarrow> (Some e, w1)
      | (None, found_one, w1) \<Rightarrow>
          if \<not> found_one then (Some RuntimeError, w1) else (None, w1))"

section \<open>Notions used to state the properties\<close>

text \<open>
  The value the coercion loop leaves for an attribute whose string is \<open>v\<close>, read off
  the final record rather than the two assignments.
\<close>

definition coerced :: "string \<Rightarrow> pyval" where
  "coerced v =
     (case py_float v of
        Some f \<Rightarrow> PyFloat f
      | None \<Rightarrow> (case py_int v of Some i \<Rightarrow> PyInt i | None \<Rightarrow> PyStr v))"

text \<open>The last child with tag \<open>k\<close>, if there is one.\<close>

definition last_child :: "string \<Rightarrow> element list \<Rightarrow> element option" where
  "last_child k cs =
     (case filter (\<lambda>c. tag c = k) cs of
        [] \<Rightarrow> None
      | d # ds \<Rightarrow> Some (last (d # ds)))"

text \<open>A text that is present, not empty and not made of whitespace only.\<close>

definition nonblank :: "string option \<Rightarrow> bool" where
  "nonblank t = (case t of None \<Rightarrow> False | Some s \<Rightarrow> s \<noteq> [] \<and> \<not> list_all py_isspace s)"

text \<open>
  A path segment that ends in an underscore followed by an integer: some underscore
  of the segment is followed, up to the end, by a text that \<^verbatim>\<open>int\<close> accepts.
\<close>

definition ends_in_underscore_int :: "string \<Rightarrow> bool" where
  "ends_in_underscore_int seg =
     list_ex (\<lambda>n. seg ! n = CHR ''_'' \<and> py_int (drop (Suc n) seg) \<noteq> None) [0..<length seg]"

text \<open>The messages the loop over the atoms prints when every atom can be read.\<close>

definition mismatch_log :: "path \<Rightarrow> int \<Rightarrow> string list \<Rightarrow> world" where
  "mismatch_log artifact_name workflow_run_attempt atoms =
     concat (map (\<lambda>atom.
        if py_startswith atom ''runattempt'' then
          (case py_int (drop (length ''runattempt'') atom) of
             None \<Rightarrow> []
           | Some found \<Rightarrow>
               if workflow_run_attempt \<noteq> found
               then [Print (SkippingInvalidRunAttempt artifact_name workflow_run_attempt found)]
               else [])
        else []) atoms)"

text \<open>Every atom that starts with \<^verbatim>\<open>runattempt\<close> continues with an integer.\<close>

definition atoms_readable :: "string list \<Rightarrow> bool" where
  "atoms_readable atoms =
     list_all (\<lambda>atom. if py_startswith atom ''runattempt''
                       then py_int (drop (length ''runattempt'') atom) \<noteq> None
                       else True) atoms"

text \<open>What the loop over the listed objects does for one object.\<close>

definition s3_effects :: "s3_object \<Rightarrow> world" where
  "s3_effects obj =
     (let name = path_name (Path (key obj)) in
      [Print (DownloadingAndExtracting [name]),
       Write [name] (body obj),
       ExtractAll [name] [''unzipped-'' @ path_stem [name]]])"

subsection \<open>Example inputs\<close>

text \<open>The report of the end-to-end scenario, as \<^verbatim>\<open>ET.parse\<close> reads it.\<close>

definition example_testcase :: element where
  "example_testcase =
     Element ''testcase'' [(''name'', ''bar''), (''time'', ''0.5'')] None None []"

definition example_testsuite :: element where
  "example_testsuite =
     Element ''testsuite'' [(''name'', ''Foo''), (''tests'', ''3'')] None None
       [example_testcase]"

definition example_parse :: "path \<Rightarrow> element" where
  "example_parse report = example_testsuite"

definition example_report :: path where
  "example_report =
     [''unzipped-test-reports-foo_5596745227'', ''test'', ''test-reports'', ''foo'',
      ''TEST-foo.xml'']"

text \<open>A report whose first path segment has no underscore at all.\<close>

definition example_report_plain :: path where
  "example_report_plain = [''12345'', ''TEST-foo.xml'']"

text \<open>An element with an attribute named \<^verbatim>\<open>text\<close> and no inner text.\<close>

definition example_text_attribute :: element where
  "example_text_attribute = Element ''testcase'' [(''text'', ''abc'')] None None []"

text \<open>
  The element of the source's comment, \<^verbatim>\<open><testcase>my_inner_text</testcase> my_tail\<close>,
  and one whose names collide: attributes \<^verbatim>\<open>workflow_id\<close> and \<^verbatim>\<open>text\<close>, an inner
  text, and children tagged \<^verbatim>\<open>text\<close>, \<^verbatim>\<open>job_id\<close> and twice \<^verbatim>\<open>foo\<close>.
\<close>

definition example_inner_tail :: element where
  "example_inner_tail = Element ''testcase'' [] (Some ''my_inner_text'') (Some '' my_tail'') []"

definition example_collisions :: element where
  "example_collisions =
     Element ''testcase'' [(''workflow_id'', ''99''), (''text'', ''attr'')]
       (Some ''inner'') None
       [Element ''foo'' [(''n'', ''1'')] None None [],
        Element ''text'' [] (Some ''hello'') None [],
        Element ''job_id'' [] None None [],
        Element ''foo'' [(''n'', ''2'')] None None []]"

definition example_parse_collisions :: "path \<Rightarrow> element" where
  "example_parse_collisions report = example_collisions"

text \<open>An environment with the token set, and a server that answers every request.\<close>

definition example_environ :: "string \<rightharpoonup> string" where
  "example_environ = [''GITHUB_TOKEN'' \<mapsto> ''secret'']"

definition example_requests_get :: "string \<Rightarrow> (string \<times> string) list \<Rightarrow> string" where
  "example_requests_get url headers = ''PK''"

text \<open>A bucket with two reports of run 7, attempt 2, and one of attempt 3.\<close>

definition example_bucket :: "s3_object list" where
  "example_bucket =
     [\<lparr>key = ''pytorch/pytorch/7/2/artifact/test-reports-a.zip'', body = ''A''\<rparr>,
      \<lparr>key = ''pytorch/pytorch/7/3/artifact/test-reports-a.zip'', body = ''B''\<rparr>,
      \<lparr>key = ''pytorch/pytorch/7/2/artifact/test-reports-c.zip'', body = ''C''\<rparr>]"

section \<open>Records as finite maps\<close>

text \<open>
  What a key holds after each step of \<^verbatim>\<open>process_xml_element\<close>, and that keys stay
  distinct.
\<close>

lemma map_of_dict_update:
  "map_of (dict_update d pairs) = map_of d ++ map_of (rev pairs)"
  unfolding dict_update_def
proof (induction pairs arbitrary: d)
  case Nil
  then show ?case by simp
next
  case (Cons p ps)
  obtain k v where p: "p = (k, v)" by (cases p)
  show ?case
    by (simp add: Cons.IH p AList.update_conv' map_add_upd_left fun_eq_iff map_add_def split: option.splits)
qed

lemma distinct_dict_update:
  "distinct (map fst d) \<Longrightarrow> distinct (map fst (dict_update d pairs))"
  unfolding dict_update_def
  by (induction pairs arbitrary: d) (auto simp: AList.distinct_update)

lemma distinct_coerce_item:
  "distinct (map fst ret) \<Longrightarrow> distinct (map fst (coerce_item kv ret))"
  by (cases kv) (simp add: coerce_item_def AList.distinct_update split: option.splits)

lemma distinct_fold_coerce:
  "distinct (map fst ret) \<Longrightarrow> distinct (map fst (fold coerce_item items ret))"
  by (induction items arbitrary: ret) (simp_all add: distinct_coerce_item)

lemma map_of_coerce_item:
  "map_of (coerce_item (k, v) ret) k' =
     (if k' = k then
        (case py_float v of
           Some f \<Rightarrow> Some (PyFloat f)
         | None \<Rightarrow> (case py_int v of Some i \<Rightarrow> Some (PyInt i) | None \<Rightarrow> map_of ret k'))
      else map_of ret k')"
  by (simp add: coerce_item_def AList.update_conv' split: option.splits)

lemma map_of_fold_coerce:
  "distinct (map fst items) \<Longrightarrow>
   map_of (fold coerce_item items ret) k =
     (case map_of items k of
        None \<Rightarrow> map_of ret k
      | Some v \<Rightarrow>
          (case py_float v of
             Some f \<Rightarrow> Some (PyFloat f)
           | None \<Rightarrow> (case py_int v of Some i \<Rightarrow> Some (PyInt i) | None \<Rightarrow> map_of ret k)))"
proof (induction items arbitrary: ret)
  case Nil
  then show ?case by simp
next
  case (Cons p ps)
  obtain k0 v0 where p: "p = (k0, v0)" by (cases p)
  from Cons.prems p have notin: "map_of ps k0 = None" and d: "distinct (map fst ps)"
    by (auto simp: map_of_eq_None_iff)
  show ?case
    using notin by (auto simp: Cons.IH [OF d] p map_of_coerce_item split: option.splits)
qed

lemma map_of_store_text:
  "map_of (store_text fld t ret) k =
     (if k = fld \<and> truthy_stripped t then Some (PyStr (the t)) else map_of ret k)"
  by (simp add: store_text_def AList.update_conv')

lemma distinct_store_text:
  "distinct (map fst ret) \<Longrightarrow> distinct (map fst (store_text fld t ret))"
  by (simp add: store_text_def AList.distinct_update)

lemma map_of_fold_children:
  "map_of (fold (\<lambda>child ret. AList.update (tag child) (f child) ret) cs ret0) k =
     (case last_child k cs of None \<Rightarrow> map_of ret0 k | Some d \<Rightarrow> Some (f d))"
proof (induction cs arbitrary: ret0)
  case Nil
  then show ?case by (simp add: last_child_def)
next
  case (Cons c cs)
  show ?case
    by (simp add: Cons.IH AList.update_conv' last_child_def split: list.splits)
qed

lemma distinct_fold_children:
  "distinct (map fst ret0) \<Longrightarrow>
   distinct (map fst (fold (\<lambda>child ret. AList.update (tag child) (f child) ret) cs ret0))"
  by (induction cs arbitrary: ret0) (simp_all add: AList.distinct_update)

lemma process_xml_element_lookup:
  "map_of (process_xml_element e) k =
     (case last_child k (children e) of
        Some d \<Rightarrow> Some (PyDict (process_xml_element d))
      | None \<Rightarrow>
          if k = ''tail'' \<and> truthy_stripped (el_tail e) then Some (PyStr (the (el_tail e)))
          else if k = ''text'' \<and> truthy_stripped (el_text e) then Some (PyStr (the (el_text e)))
          else map_option coerced (map_of (rev (attrib e)) k))"
proof (cases e)
  case (Element tg attrs tx ta cs)
  have d: "distinct (map fst (dict_update [] attrs))"
    by (simp add: distinct_dict_update)
  have items: "map_of (dict_update [] attrs) k = map_of (rev attrs) k"
    by (simp add: map_of_dict_update)
  have ret0: "map_of (map (\<lambda>(k, v). (k, PyStr v)) (dict_update [] attrs)) k
      = map_option PyStr (map_of (rev attrs) k)"
    by (simp add: map_of_map items)
  show ?thesis
    unfolding Element
    by (simp add: Let_def map_of_fold_children map_of_store_text map_of_fold_coerce [OF d]
        ret0 items coerced_def split: option.splits)
qed

lemma process_xml_element_distinct:
  "distinct (map fst (process_xml_element e))"
proof (cases e)
  case (Element tg attrs tx ta cs)
  have "distinct (map fst (map (\<lambda>(k, v). (k, PyStr v)) (dict_update [] attrs :: (string \<times> string) list)))"
    using distinct_dict_update [of "[]" attrs] by (simp add: case_prod_beta comp_def)
  then show ?thesis
    unfolding Element
    by (simp add: Let_def distinct_fold_children distinct_store_text distinct_fold_coerce)
qed

section \<open>Facts about the conversions\<close>

text \<open>
  Whatever \<^verbatim>\<open>int\<close> accepts, \<^verbatim>\<open>float\<close> accepts too, with the same number; and
  \<^verbatim>\<open>strip\<close> leaves nothing exactly for the strings made of whitespace only.
\<close>

lemma py_lower_digit: "is_digit c \<Longrightarrow> py_lower c = c"
  by (simp add: py_lower_def is_digit_def Let_def)

lemma digits_not_word:
  assumes "ds \<noteq> []" "list_all is_digit ds"
  shows "map py_lower ds \<noteq> ''inf''" "map py_lower ds \<noteq> ''infinity''" "map py_lower ds \<noteq> ''nan''"
proof -
  obtain d rest where ds: "ds = d # rest" using assms(1) by (cases ds) auto
  with assms(2) have dg: "is_digit d" by simp
  then have low: "py_lower d = d" by (rule py_lower_digit)
  have "d \<noteq> CHR ''i''" "d \<noteq> CHR ''n''" using dg by (auto simp: is_digit_def)
  then show "map py_lower ds \<noteq> ''inf''" "map py_lower ds \<noteq> ''infinity''" "map py_lower ds \<noteq> ''nan''"
    by (simp_all add: ds low)
qed

lemma float_body_digits:
  assumes "ds \<noteq> []" "list_all is_digit ds"
  shows "float_body neg ds = Some (Finite (if neg then - of_nat (digits_val ds) else of_nat (digits_val ds)))"
proof -
  have tw: "takeWhile is_digit ds = ds" "dropWhile is_digit ds = []"
    using assms(2) by (simp_all add: list_all_iff)
  show ?thesis
    using assms(1) digits_not_word [OF assms]
    by (simp add: float_body_def tw float_exponent_def scale10_def Let_def)
qed

lemma py_int_imp_py_float:
  assumes "py_int v = Some i"
  shows "py_float v = Some (Finite (of_int i))"
proof -
  from assms obtain t where t: "drop_underscores None (py_strip v) = Some t"
    by (auto simp: py_int_def split: option.splits)
  obtain neg ds where sg: "split_sign t = (neg, ds)" by (cases "split_sign t")
  from assms t sg have ds: "ds \<noteq> []" "list_all is_digit ds"
    and i: "i = (if neg then - int (digits_val ds) else int (digits_val ds))"
    by (auto simp: py_int_def split: if_splits)
  show ?thesis
    by (simp add: py_float_def t sg float_body_digits [OF ds] i)
qed

lemma coerced_int: "py_int v = Some i \<Longrightarrow> coerced v = PyFloat (Finite (of_int i))"
  by (simp add: coerced_def py_int_imp_py_float)

lemma dropWhile_all_iff: "(\<forall>x\<in>set (dropWhile P xs). P x) \<longleftrightarrow> dropWhile P xs = []"
proof
  assume all: "\<forall>x\<in>set (dropWhile P xs). P x"
  show "dropWhile P xs = []"
  proof (rule ccontr)
    assume ne: "dropWhile P xs \<noteq> []"
    then have "\<not> P (hd (dropWhile P xs))" by (rule hd_dropWhile)
    moreover have "hd (dropWhile P xs) \<in> set (dropWhile P xs)" using ne by simp
    ultimately show False using all by blast
  qed
next
  assume e: "dropWhile P xs = []"
  show "\<forall>x\<in>set (dropWhile P xs). P x" by (simp only: e list.set ball_empty)
qed

lemma py_strip_empty_iff: "py_strip s = [] \<longleftrightarrow> list_all py_isspace s"
proof -
  have "py_strip s = [] \<longleftrightarrow> (\<forall>x\<in>set (dropWhile py_isspace s). py_isspace x)"
    by (simp add: py_strip_def)
  also have "\<dots> \<longleftrightarrow> dropWhile py_isspace s = []"
    by (rule dropWhile_all_iff)
  also have "\<dots> \<longleftrightarrow> list_all py_isspace s"
    by (simp add: list_all_iff)
  finally show ?thesis .
qed

lemma truthy_stripped_iff: "truthy_stripped t \<longleftrightarrow> nonblank t"
  by (auto simp: truthy_stripped_def nonblank_def py_strip_empty_iff split: option.splits)

lemmas eval_defs = py_int_def py_float_def py_strip_def py_isspace_def digits_val_def digit_val_def
  is_digit_def float_body_def float_exponent_def scale10_def py_lower_def Let_def
  py_rpartition_def dict_update_def coerce_item_def store_text_def truthy_stripped_def

section \<open>Attribute coercion and the end-to-end scenario\<close>

text \<open>
  Claim C1: each attribute value is coerced on its own; a value that reads as an
  integer is stored as an integer, one that reads as a float but not as an integer is
  stored as a float, and any other value stays a string.

  The loop does not do this for integers. Its second \<^verbatim>\<open>try\<close> block runs after the
  first one has stored the integer, converts the same string again, and overwrites the
  integer with a float: for an element with the single attribute \<open>k\<close> whose value
  \<open>v\<close> reads as the integer \<open>i\<close>, the record holds the float \<open>i\<close> under \<open>k\<close>.
\<close>

theorem int_attribute_stored_as_float:
  assumes "py_int v = Some i"
  shows "process_xml_element (Element tg [(k, v)] None None [])
           = [(k, PyFloat (Finite (of_int i)))]"
  using assms
  by (simp add: dict_update_def coerce_item_def store_text_def truthy_stripped_def
      py_int_imp_py_float)

theorem int_attribute_stored_as_float_witness:
  "py_int ''7'' = Some 7 \<and>
   process_xml_element (Element ''testcase'' [(''tests'', ''7'')] None None [])
     = [(''tests'', PyFloat (Finite 7))]"
proof -
  have h: "py_int ''7'' = Some 7" by (simp add: eval_defs)
  show ?thesis
    using h int_attribute_stored_as_float [OF h, of "''testcase''" "''tests''"] by simp
qed

text \<open>
  Claim C2: the report
  \<^verbatim>\<open><testsuite name="Foo" tests="3"><testcase name="bar" time="0.5"/></testsuite>\<close>,
  in a directory whose first path segment ends in the job id, gives one record
  \<^verbatim>\<open>{"name": "bar", "time": 0.5, ...}\<close> for the tag \<^verbatim>\<open>testcase\<close> and one record
  \<^verbatim>\<open>{"name": "Foo", "tests": 3, "testcase": {"name": "bar", "time": 0.5}, ...}\<close> for the
  tag \<^verbatim>\<open>testsuite\<close>, each with the run id, the run attempt and the job id.

  The code gives these two records, except that \<^verbatim>\<open>tests\<close> is the float 3 and not
  the integer 3.
\<close>

theorem end_to_end_scenario:
  "parse_xml_report example_parse ''testcase'' example_report wid att =
     Inr [[(''name'', PyStr ''bar''), (''time'', PyFloat (Finite (1 / 2))),
           (''workflow_id'', PyInt wid), (''workflow_run_attempt'', PyInt att),
           (''job_id'', PyInt 5596745227)]]
   \<and> parse_xml_report example_parse ''testsuite'' example_report wid att =
     Inr [[(''name'', PyStr ''Foo''), (''tests'', PyFloat (Finite 3)),
           (''testcase'',
            PyDict [(''name'', PyStr ''bar''), (''time'', PyFloat (Finite (1 / 2)))]),
           (''workflow_id'', PyInt wid), (''workflow_run_attempt'', PyInt att),
           (''job_id'', PyInt 5596745227)]]"
  by (simp add: parse_xml_report_def example_parse_def example_report_def example_testsuite_def
      example_testcase_def eval_defs)

section \<open>The job id of a report path\<close>

text \<open>
  The job id is the text after the last underscore of the first path segment, and the
  whole segment when it has no underscore. A segment with an underscore that does not
  end in an underscore followed by an integer has no readable job id.
\<close>

lemma last_underscore_text:
  assumes "CHR ''_'' \<in> set seg"
  shows "\<exists>n < length seg. seg ! n = CHR ''_'' \<and>
           drop (Suc n) seg = snd (snd (py_rpartition CHR ''_'' seg))"
proof -
  from assms obtain a b where seg: "seg = a @ CHR ''_'' # b" and b: "CHR ''_'' \<notin> set b"
    by (meson split_list_last)
  have tw: "takeWhile (\<lambda>c. c \<noteq> CHR ''_'') (rev b @ CHR ''_'' # rev a) = rev b"
    using b by (auto simp: takeWhile_tail)
  have "snd (snd (py_rpartition CHR ''_'' seg)) = b"
    using tw by (simp add: py_rpartition_def seg)
  moreover have "seg ! length a = CHR ''_''" "drop (Suc (length a)) seg = b" "length a < length seg"
    by (simp_all add: seg)
  ultimately show ?thesis by metis
qed

lemma underscore_segment_unreadable:
  assumes "CHR ''_'' \<in> set seg" "\<not> ends_in_underscore_int seg"
  shows "py_int (snd (snd (py_rpartition CHR ''_'' seg))) = None"
proof -
  from last_underscore_text [OF assms(1)] obtain n where
    n: "n < length seg" "seg ! n = CHR ''_''"
       "drop (Suc n) seg = snd (snd (py_rpartition CHR ''_'' seg))"
    by blast
  from assms(2) n(1,2) have "py_int (drop (Suc n) seg) = None"
    by (auto simp: ends_in_underscore_int_def list_ex_iff)
  then show ?thesis by (simp add: n(3))
qed

text \<open>
  Claim C3: for every report path whose first path segment does not end in an
  underscore followed by an integer, \<^verbatim>\<open>parse_xml_report\<close> fails with a
  \<^verbatim>\<open>ValueError\<close> instead of returning records.

  This fails for a segment that has no underscore and is an integer itself: the
  segment \<^verbatim>\<open>12345\<close> is read as the job id 12345.
\<close>

theorem plain_segment_counterexample:
  "\<not> ends_in_underscore_int (hd example_report_plain) \<and>
   parse_xml_report example_parse ''testcase'' example_report_plain 1 1 =
     Inr [[(''name'', PyStr ''bar''), (''time'', PyFloat (Finite (1 / 2))),
           (''workflow_id'', PyInt 1), (''workflow_run_attempt'', PyInt 1),
           (''job_id'', PyInt 12345)]]"
proof
  show "\<not> ends_in_underscore_int (hd example_report_plain)"
    by (simp add: example_report_plain_def ends_in_underscore_int_def upt_rec)
  show "parse_xml_report example_parse ''testcase'' example_report_plain 1 1 =
     Inr [[(''name'', PyStr ''bar''), (''time'', PyFloat (Finite (1 / 2))),
           (''workflow_id'', PyInt 1), (''workflow_run_attempt'', PyInt 1),
           (''job_id'', PyInt 12345)]]"
    by (simp add: parse_xml_report_def example_parse_def example_report_plain_def
        example_testsuite_def example_testcase_def eval_defs)
qed

text \<open>
  Claim C3 as amended: for every report path whose first path segment, taken after its
  last underscore, or as a whole when it has no underscore, does not read as an
  integer, \<^verbatim>\<open>parse_xml_report\<close> fails with a \<^verbatim>\<open>ValueError\<close> instead of returning
  records, whatever the report file holds.
\<close>

theorem unreadable_job_id_raises:
  assumes "py_int (snd (snd (py_rpartition CHR ''_'' part0))) = None"
  shows "parse_xml_report et_parse tg (part0 # parts) workflow_id workflow_run_attempt
           = Inl ValueError"
  using assms by (simp add: parse_xml_report_def)

theorem unreadable_job_id_raises_witness:
  "py_int (snd (snd (py_rpartition CHR ''_'' ''unzipped-test-reports_foo''))) = None \<and>
   parse_xml_report example_parse ''testcase''
       [''unzipped-test-reports_foo'', ''TEST-foo.xml''] 1 1
     = Inl ValueError"
proof -
  have h: "py_int (snd (snd (py_rpartition CHR ''_'' ''unzipped-test-reports_foo''))) = None"
    by (simp add: eval_defs)
  show ?thesis
    using h unreadable_job_id_raises [OF h] by simp
qed

section \<open>Text, tail and child elements\<close>

lemma filter_tag_empty_iff: "filter (\<lambda>c. tag c = k) cs = [] \<longleftrightarrow> k \<notin> tag ` set cs"
  by (auto simp: filter_empty_conv)

lemma last_child_None_iff: "last_child k cs = None \<longleftrightarrow> k \<notin> tag ` set cs"
  using filter_tag_empty_iff [of k cs]
  by (cases "filter (\<lambda>c. tag c = k) cs") (simp_all add: last_child_def)

lemma last_child_Some:
  "k \<in> tag ` set cs \<Longrightarrow> last_child k cs = Some (last (filter (\<lambda>d. tag d = k) cs))"
  using filter_tag_empty_iff [of k cs]
  by (cases "filter (\<lambda>c. tag c = k) cs") (simp_all add: last_child_def)

lemma has_key_iff: "k \<in> fst ` set r \<longleftrightarrow> map_of r k \<noteq> None"
  by (simp add: map_of_eq_None_iff)

lemma one_entry_per_key:
  assumes "distinct (map fst r)" "k \<in> fst ` set r"
  shows "length (filter (\<lambda>kv. fst kv = k) r) = 1"
  using assms
proof (induction r)
  case Nil
  then show ?case by simp
next
  case (Cons p r)
  show ?case
  proof (cases "fst p = k")
    case True
    from Cons.prems(1) True have "k \<notin> fst ` set r" by auto
    then have "filter (\<lambda>kv. fst kv = k) r = []"
      unfolding filter_empty_conv by (metis imageI)
    with True show ?thesis by simp
  next
    case False
    with Cons show ?thesis by auto
  qed
qed

lemma child_field:
  assumes "c \<in> set (children e)"
  shows "map_of (process_xml_element e) (tag c) =
           Some (PyDict (process_xml_element
                   (last (filter (\<lambda>d. tag d = tag c) (children e)))))"
  using assms by (simp add: process_xml_element_lookup last_child_Some)

text \<open>
  Claim C6: the record of an element has a \<^verbatim>\<open>text\<close> field exactly when the inner
  text of the element is neither empty nor made of whitespace only, and a \<^verbatim>\<open>tail\<close>
  field exactly when its trailing text is so.

  This fails for an element that has an attribute, or a child element, of that name:
  \<^verbatim>\<open><testcase text="abc"/>\<close> has no inner text and its record has a \<^verbatim>\<open>text\<close> field.
\<close>

theorem text_attribute_counterexample:
  "\<not> nonblank (el_text example_text_attribute) \<and>
   map_of (process_xml_element example_text_attribute) ''text'' = Some (PyStr ''abc'')"
  by (simp add: example_text_attribute_def nonblank_def eval_defs)

text \<open>
  Claim C6 as amended: for every element with no attribute and no child element named
  \<^verbatim>\<open>text\<close>, the record has a \<^verbatim>\<open>text\<close> field exactly when the inner text is
  neither empty nor made of whitespace only; and for every element with no attribute and
  no child element named \<^verbatim>\<open>tail\<close>, the record has a \<^verbatim>\<open>tail\<close> field exactly when
  the trailing text is neither empty nor made of whitespace only.
\<close>

theorem text_tail_present_iff_nonblank:
  "(''text'' \<notin> fst ` set (attrib e) \<and> ''text'' \<notin> tag ` set (children e) \<longrightarrow>
      (''text'' \<in> fst ` set (process_xml_element e) \<longleftrightarrow> nonblank (el_text e)))
   \<and> (''tail'' \<notin> fst ` set (attrib e) \<and> ''tail'' \<notin> tag ` set (children e) \<longrightarrow>
      (''tail'' \<in> fst ` set (process_xml_element e) \<longleftrightarrow> nonblank (el_tail e)))"
proof -
  have attr: "k \<notin> fst ` set (attrib e) \<Longrightarrow> map_of (rev (attrib e)) k = None" for k
    by (simp add: map_of_eq_None_iff)
  show ?thesis
    by (auto simp: has_key_iff process_xml_element_lookup last_child_None_iff [symmetric]
        attr truthy_stripped_iff)
qed

theorem text_tail_present_iff_nonblank_witness:
  "''text'' \<notin> fst ` set (attrib example_inner_tail)
   \<and> ''text'' \<notin> tag ` set (children example_inner_tail)
   \<and> ''tail'' \<notin> fst ` set (attrib example_inner_tail)
   \<and> ''tail'' \<notin> tag ` set (children example_inner_tail)
   \<and> nonblank (el_text example_inner_tail)
   \<and> ''text'' \<in> fst ` set (process_xml_element example_inner_tail)
   \<and> nonblank (el_tail example_inner_tail)
   \<and> ''tail'' \<in> fst ` set (process_xml_element example_inner_tail)"
proof -
  have h: "''text'' \<notin> fst ` set (attrib example_inner_tail)"
      "''text'' \<notin> tag ` set (children example_inner_tail)"
      "''tail'' \<notin> fst ` set (attrib example_inner_tail)"
      "''tail'' \<notin> tag ` set (children example_inner_tail)"
    by (simp_all add: example_inner_tail_def)
  have n: "nonblank (el_text example_inner_tail)" "nonblank (el_tail example_inner_tail)"
    by (simp_all add: example_inner_tail_def nonblank_def py_isspace_def)
  show ?thesis
    using h n text_tail_present_iff_nonblank [of example_inner_tail] by simp
qed

text \<open>
  Claim C7: for every element with child elements, the record has exactly one field
  for each tag among its children, and where several children share a tag, the field
  holds the record of the last of them.
\<close>

theorem one_field_per_child_tag_last_wins:
  assumes "c \<in> set (children e)"
  shows "length (filter (\<lambda>kv. fst kv = tag c) (process_xml_element e)) = 1
         \<and> map_of (process_xml_element e) (tag c) =
             Some (PyDict (process_xml_element
                     (last (filter (\<lambda>d. tag d = tag c) (children e)))))"
proof -
  have v: "map_of (process_xml_element e) (tag c) =
             Some (PyDict (process_xml_element
                     (last (filter (\<lambda>d. tag d = tag c) (children e)))))"
    using assms by (rule child_field)
  then have "tag c \<in> fst ` set (process_xml_element e)"
    by (simp add: has_key_iff)
  then have "length (filter (\<lambda>kv. fst kv = tag c) (process_xml_element e)) = 1"
    by (rule one_entry_per_key [OF process_xml_element_distinct])
  with v show ?thesis by simp
qed

theorem one_field_per_child_tag_last_wins_witness:
  "Element ''foo'' [(''n'', ''1'')] None None [] \<in> set (children example_collisions)
   \<and> length (filter (\<lambda>kv. fst kv = ''foo'') (process_xml_element example_collisions)) = 1
   \<and> map_of (process_xml_element example_collisions) ''foo''
       = Some (PyDict [(''n'', PyFloat (Finite 2))])"
proof -
  have h: "Element ''foo'' [(''n'', ''1'')] None None [] \<in> set (children example_collisions)"
    by (simp add: example_collisions_def)
  show ?thesis
    using h one_field_per_child_tag_last_wins [OF h]
    by (simp add: example_collisions_def eval_defs)
qed

text \<open>
  Claim C8: in every record that \<^verbatim>\<open>parse_xml_report\<close> returns, the fields
  \<^verbatim>\<open>workflow_id\<close>, \<^verbatim>\<open>workflow_run_attempt\<close> and \<^verbatim>\<open>job_id\<close> hold the given run id,
  the given run attempt and the job id read from the path, also when the element has
  attributes or children of these names.
\<close>

theorem injected_fields_overwrite:
  assumes "parse_xml_report et_parse tg report workflow_id workflow_run_attempt = Inr recs"
    and "r \<in> set recs"
  shows "map_of r ''workflow_id'' = Some (PyInt workflow_id)
         \<and> map_of r ''workflow_run_attempt'' = Some (PyInt workflow_run_attempt)
         \<and> (\<exists>job_id. py_int (snd (snd (py_rpartition CHR ''_'' (hd report)))) = Some job_id
                \<and> map_of r ''job_id'' = Some (PyInt job_id))"
  using assms
  by (auto simp: parse_xml_report_def AList.update_conv' split: list.splits option.splits)

theorem injected_fields_overwrite_witness:
  "parse_xml_report example_parse_collisions ''testcase'' example_report 7 2
     = Inr [[(''workflow_id'', PyInt 7), (''text'', PyDict [(''text'', PyStr ''hello'')]),
             (''foo'', PyDict [(''n'', PyFloat (Finite 2))]), (''job_id'', PyInt 5596745227),
             (''workflow_run_attempt'', PyInt 2)]]
   \<and> map_of [(''workflow_id'', PyInt 7), (''text'', PyDict [(''text'', PyStr ''hello'')]),
             (''foo'', PyDict [(''n'', PyFloat (Finite 2))]), (''job_id'', PyInt 5596745227),
             (''workflow_run_attempt'', PyInt 2)] ''workflow_id'' = Some (PyInt 7)"
proof -
  let ?r = "[(''workflow_id'', PyInt 7), (''text'', PyDict [(''text'', PyStr ''hello'')]),
             (''foo'', PyDict [(''n'', PyFloat (Finite 2))]), (''job_id'', PyInt 5596745227),
             (''workflow_run_attempt'', PyInt 2)]"
  have h: "parse_xml_report example_parse_collisions ''testcase'' example_report 7 2 = Inr [?r]"
    by (simp add: parse_xml_report_def example_parse_collisions_def example_report_def
        example_collisions_def eval_defs)
  have m: "?r \<in> set [?r]" by simp
  show ?thesis
    using h injected_fields_overwrite [OF h m] by simp
qed

text \<open>
  Claim C9: a child element whose tag is \<^verbatim>\<open>text\<close> or \<^verbatim>\<open>tail\<close>, or the name of an
  attribute of its parent, replaces that field of the record: the fields of the children
  are assigned last and win every collision of names.
\<close>

theorem child_fields_win_collisions:
  assumes "c \<in> set (children e)"
    and "tag c = ''text'' \<or> tag c = ''tail'' \<or> tag c \<in> fst ` set (attrib e)"
  shows "map_of (process_xml_element e) (tag c) =
           Some (PyDict (process_xml_element
                   (last (filter (\<lambda>d. tag d = tag c) (children e)))))"
  using assms(1) by (rule child_field)

theorem child_fields_win_collisions_witness:
  "Element ''text'' [] (Some ''hello'') None [] \<in> set (children example_collisions)
   \<and> ''text'' \<in> fst ` set (attrib example_collisions)
   \<and> nonblank (el_text example_collisions)
   \<and> map_of (process_xml_element example_collisions) ''text''
       = Some (PyDict [(''text'', PyStr ''hello'')])"
proof -
  have h: "Element ''text'' [] (Some ''hello'') None [] \<in> set (children example_collisions)"
    by (simp add: example_collisions_def)
  have a: "tag (Element ''text'' [] (Some ''hello'') None []) = ''text''
      \<or> tag (Element ''text'' [] (Some ''hello'') None []) = ''tail''
      \<or> tag (Element ''text'' [] (Some ''hello'') None []) \<in> fst ` set (attrib example_collisions)"
    by simp
  have n: "nonblank (el_text example_collisions)"
    by (simp add: example_collisions_def nonblank_def py_isspace_def)
  show ?thesis
    using h n child_fields_win_collisions [OF h a]
    by (simp add: example_collisions_def eval_defs)
qed

text \<open>
  Claim C10: where \<^verbatim>\<open>process_xml_element\<close> stores a \<^verbatim>\<open>text\<close> or a \<^verbatim>\<open>tail\<close> field,
  the value is the text as it stands in the element, with its leading and trailing
  whitespace; \<^verbatim>\<open>strip\<close> only decides whether the field is stored. The field holds
  this string in the record unless a child element of that name replaces it.
\<close>

theorem text_tail_stored_unmodified:
  "(el_text e = Some s \<and> nonblank (Some s) \<longrightarrow>
      map_of (process_xml_element e) ''text'' =
        (case last_child ''text'' (children e) of
           None \<Rightarrow> Some (PyStr s)
         | Some d \<Rightarrow> Some (PyDict (process_xml_element d))))
   \<and> (el_tail e = Some s' \<and> nonblank (Some s') \<longrightarrow>
      map_of (process_xml_element e) ''tail'' =
        (case last_child ''tail'' (children e) of
           None \<Rightarrow> Some (PyStr s')
         | Some d \<Rightarrow> Some (PyDict (process_xml_element d))))"
  by (auto simp: process_xml_element_lookup truthy_stripped_iff split: option.splits)

theorem text_tail_stored_unmodified_witness:
  "el_text example_inner_tail = Some ''my_inner_text'' \<and> nonblank (Some ''my_inner_text'')
   \<and> el_tail example_inner_tail = Some '' my_tail'' \<and> nonblank (Some '' my_tail'')
   \<and> map_of (process_xml_element example_inner_tail) ''text'' = Some (PyStr ''my_inner_text'')
   \<and> map_of (process_xml_element example_inner_tail) ''tail'' = Some (PyStr '' my_tail'')"
proof -
  have h: "el_text example_inner_tail = Some ''my_inner_text''"
      "el_tail example_inner_tail = Some '' my_tail''"
    by (simp_all add: example_inner_tail_def)
  have n: "nonblank (Some ''my_inner_text'')" "nonblank (Some '' my_tail'')"
    by (simp_all add: nonblank_def py_isspace_def)
  have c: "last_child ''text'' (children example_inner_tail) = None"
      "last_child ''tail'' (children example_inner_tail) = None"
    by (simp_all add: example_inner_tail_def last_child_def)
  show ?thesis
    using h n text_tail_stored_unmodified [of example_inner_tail "''my_inner_text''" "'' my_tail''"]
    by (simp add: c)
qed

section \<open>Paths and archives\<close>

text \<open>
  The pieces of a split string hold no separator. The components of a path are not
  empty, not a single dot and hold no slash; the name of a path, when it has one, is such
  a component, and so is the stem. An archive that was just written is a file, and the
  directory it is extracted into has a valid name.
\<close>

lemma py_split_nonempty: "py_split sep s \<noteq> []"
  by (induction s) (auto split: list.splits)

lemma py_split_no_sep: "x \<in> set (py_split sep s) \<Longrightarrow> sep \<notin> set x"
proof (induction s arbitrary: x)
  case Nil
  then show ?case by simp
next
  case (Cons c cs)
  show ?case
  proof (cases "c = sep")
    case True
    with Cons show ?thesis by auto
  next
    case False
    obtain p ps where ps: "py_split sep cs = p # ps"
      using py_split_nonempty [of sep cs] by (cases "py_split sep cs") auto
    from Cons.prems False ps have "x = c # p \<or> x \<in> set ps" by simp
    then show ?thesis
    proof
      assume "x = c # p"
      moreover have "sep \<notin> set p" using Cons.IH [of p] ps by simp
      ultimately show ?thesis using False by auto
    next
      assume "x \<in> set ps"
      then show ?thesis using Cons.IH [of x] ps by simp
    qed
  qed
qed

lemma py_split_whole: "sep \<notin> set s \<Longrightarrow> py_split sep s = [s]"
  by (induction s) auto

lemma py_split_append: "sep \<notin> set a \<Longrightarrow> py_split sep (a @ sep # b) = a # py_split sep b"
  by (induction a) auto

lemma Path_components:
  assumes "x \<in> set (filter (\<lambda>p. p \<noteq> [] \<and> p \<noteq> ''.'') (py_split CHR ''/'' s))"
  shows "x \<noteq> [] \<and> x \<noteq> ''.'' \<and> CHR ''/'' \<notin> set x"
  using assms py_split_no_sep [of x "CHR ''/''" s] by auto

lemma Path_single:
  assumes "n \<noteq> []" "n \<noteq> ''.''" "CHR ''/'' \<notin> set n"
  shows "Path n = [n]"
proof -
  obtain c cs where n: "n = c # cs" using assms(1) by (cases n) auto
  with assms(3) have c: "c \<noteq> CHR ''/''" by auto
  have "\<not> py_startswith n ''/''" "\<not> py_startswith n ''//''"
    using c by (auto simp: py_startswith_def n)
  then show ?thesis
    using assms by (simp add: Path_def py_split_whole)
qed

lemma path_name_Path:
  "path_name (Path s) =
     (let comps = filter (\<lambda>p. p \<noteq> [] \<and> p \<noteq> ''.'') (py_split CHR ''/'' s)
      in if comps = [] then [] else last comps)"
proof -
  let ?comps = "filter (\<lambda>p. p \<noteq> [] \<and> p \<noteq> ''.'') (py_split CHR ''/'' s)"
  obtain root where P: "Path s = root @ ?comps" and r: "root = [] \<or> root = [''/''] \<or> root = [''//'']"
    by (auto simp: Path_def)
  show ?thesis
  proof (cases "?comps = []")
    case True
    with P r show ?thesis by (auto simp: path_name_def Let_def)
  next
    case False
    then have l: "last ?comps \<in> set ?comps" by (rule last_in_set)
    have nsl: "CHR ''/'' \<notin> set (last ?comps)"
      using Path_components [OF l] by simp
    have "?comps \<noteq> [''/'']" "?comps \<noteq> [''//'']"
      using nsl by auto
    with False P r show ?thesis
      by (auto simp: path_name_def Let_def)
  qed
qed

lemma path_name_Path_component:
  assumes "path_name (Path s) \<noteq> []"
  shows "path_name (Path s) \<noteq> ''.'' \<and> CHR ''/'' \<notin> set (path_name (Path s))"
proof -
  let ?comps = "filter (\<lambda>p. p \<noteq> [] \<and> p \<noteq> ''.'') (py_split CHR ''/'' s)"
  from assms have ne: "?comps \<noteq> []" and eq: "path_name (Path s) = last ?comps"
    by (auto simp: path_name_Path Let_def split: if_splits)
  from ne have "last ?comps \<in> set ?comps" by (rule last_in_set)
  from Path_components [OF this] eq show ?thesis by simp
qed

lemma rpartition_head_subset: "set (fst (py_rpartition c s)) \<subseteq> set s"
proof -
  have "set (tl (dropWhile (\<lambda>x. x \<noteq> c) (rev s))) \<subseteq> set s"
    by (metis list.set_sel(2) set_dropWhileD set_rev subsetI tl_Nil)
  then show ?thesis by (simp add: py_rpartition_def)
qed

lemma path_stem_component:
  assumes "path_name ps \<noteq> []" "CHR ''/'' \<notin> set (path_name ps)"
  shows "path_stem ps \<noteq> [] \<and> CHR ''/'' \<notin> set (path_stem ps)"
proof -
  obtain h dot t where rp: "py_rpartition CHR ''.'' (path_name ps) = (h, dot, t)"
    by (cases "py_rpartition CHR ''.'' (path_name ps)")
  have "set h \<subseteq> set (path_name ps)"
    using rpartition_head_subset [of "CHR ''.''" "path_name ps"] rp by simp
  with assms show ?thesis
    by (auto simp: path_stem_def rp Let_def)
qed

lemma with_name_unzipped:
  assumes "path_name ps \<noteq> []" "CHR ''/'' \<notin> set (path_name ps)"
  shows "with_name ps (''unzipped-'' @ path_stem ps) = Inr (butlast ps @ [''unzipped-'' @ path_stem ps])"
  using assms path_stem_component [OF assms] by (simp add: with_name_def)

lemma is_file_written: "is_file p (w @ [Write p b])"
  by (simp add: is_file_def)

lemma unzip_written:
  assumes "path_name ps \<noteq> []" "CHR ''/'' \<notin> set (path_name ps)"
  shows "unzip ps (w @ [Write ps b]) =
           (None, w @ [Write ps b, ExtractAll ps (butlast ps @ [''unzipped-'' @ path_stem ps])])"
  using with_name_unzipped [OF assms] by (simp add: unzip_def is_file_written)

section \<open>Reports in object storage\<close>

text \<open>
  Every key that the listing returns starts with \<^verbatim>\<open>pytorch/\<close>, so its last
  component is a file name: the file is written, the assertion of \<^verbatim>\<open>unzip\<close> holds
  and the archive is extracted.
\<close>

lemma s3_prefix_start: "\<exists>rest. s3_prefix wid att = ''pytorch'' @ CHR ''/'' # rest"
  by (simp add: s3_prefix_def)

lemma startswith_append: "py_startswith s pre \<Longrightarrow> \<exists>rest. s = pre @ rest"
  by (metis append_take_drop_id py_startswith_def)

lemma listed_key_name:
  assumes "py_startswith (key obj) (s3_prefix wid att)"
  shows "path_name (Path (key obj)) \<noteq> []"
proof -
  from startswith_append [OF assms] s3_prefix_start [of wid att]
  obtain rest where k: "key obj = ''pytorch'' @ CHR ''/'' # rest"
    by (metis append.assoc append_Cons)
  have "py_split CHR ''/'' (key obj) = ''pytorch'' # py_split CHR ''/'' rest"
    unfolding k by (rule py_split_append) simp
  then have ne: "filter (\<lambda>p. p \<noteq> [] \<and> p \<noteq> ''.'') (py_split CHR ''/'' (key obj)) \<noteq> []"
    by simp
  then have "last (filter (\<lambda>p. p \<noteq> [] \<and> p \<noteq> ''.'') (py_split CHR ''/'' (key obj)))
      \<in> set (filter (\<lambda>p. p \<noteq> [] \<and> p \<noteq> ''.'') (py_split CHR ''/'' (key obj)))"
    by (rule last_in_set)
  from Path_components [OF this] ne show ?thesis
    by (simp add: path_name_Path Let_def)
qed

lemma path_name_single:
  assumes "n \<noteq> []" "CHR ''/'' \<notin> set n"
  shows "path_name [n] = n"
proof -
  have "n \<noteq> ''/''" "n \<noteq> ''//''" using assms(2) by auto
  then show ?thesis by (simp add: path_name_def)
qed

lemma s3_step:
  assumes "py_startswith (key obj) (s3_prefix wid att)"
  shows "Path (path_name (Path (key obj))) = [path_name (Path (key obj))]"
    and "unzip [path_name (Path (key obj))]
           (w @ [Print (DownloadingAndExtracting [path_name (Path (key obj))]),
                 Write [path_name (Path (key obj))] (body obj)])
         = (None, w @ s3_effects obj)"
proof -
  let ?n = "path_name (Path (key obj))"
  have ne: "?n \<noteq> []" using assms by (rule listed_key_name)
  from path_name_Path_component [OF ne] have c: "?n \<noteq> ''.''" "CHR ''/'' \<notin> set ?n"
    by simp_all
  show "Path ?n = [?n]" using ne c by (rule Path_single)
  have pn: "path_name [?n] = ?n" using ne c(2) by (rule path_name_single)
  have "unzip [?n] ((w @ [Print (DownloadingAndExtracting [?n])]) @ [Write [?n] (body obj)])
      = (None, (w @ [Print (DownloadingAndExtracting [?n])])
               @ [Write [?n] (body obj),
                  ExtractAll [?n] (butlast [?n] @ [''unzipped-'' @ path_stem [?n]])])"
    by (rule unzip_written) (simp_all add: pn ne c)
  then show "unzip [?n] (w @ [Print (DownloadingAndExtracting [?n]), Write [?n] (body obj)])
      = (None, w @ s3_effects obj)"
    by (simp add: s3_effects_def Let_def)
qed

lemma s3_loop_listed:
  assumes "list_all (\<lambda>obj. py_startswith (key obj) (s3_prefix wid att)) objs"
  shows "s3_loop objs found_one w
           = (None, found_one \<or> objs \<noteq> [], w @ concat (map s3_effects objs))"
  using assms
proof (induction objs arbitrary: found_one w)
  case Nil
  then show ?case by simp
next
  case (Cons obj objs)
  from Cons.prems have k: "py_startswith (key obj) (s3_prefix wid att)"
    and rest: "list_all (\<lambda>obj. py_startswith (key obj) (s3_prefix wid att)) objs"
    by simp_all
  show ?case
    by (simp add: Let_def s3_step [OF k] Cons.IH [OF rest])
qed

lemma objects_filter_listed:
  "list_all (\<lambda>obj. py_startswith (key obj) pre) (objects_filter bucket pre)"
  by (simp add: objects_filter_def list_all_iff)

lemma example_prefix: "s3_prefix 7 2 = ''pytorch/pytorch/7/2/artifact/test-reports''"
  by code_simp

lemma example_prefix_other: "s3_prefix 7 4 = ''pytorch/pytorch/7/4/artifact/test-reports''"
  by code_simp

lemma example_listing: "objects_filter example_bucket (s3_prefix 7 2) =
   [\<lparr>key = ''pytorch/pytorch/7/2/artifact/test-reports-a.zip'', body = ''A''\<rparr>,
    \<lparr>key = ''pytorch/pytorch/7/2/artifact/test-reports-c.zip'', body = ''C''\<rparr>]"
  by (simp add: example_prefix objects_filter_def example_bucket_def py_startswith_def)

lemma example_listing_none: "objects_filter example_bucket (s3_prefix 7 4) = []"
  by (simp add: example_prefix_other objects_filter_def example_bucket_def py_startswith_def)

text \<open>
  Claim C4: \<^verbatim>\<open>download_and_extract_s3_reports\<close> raises an error if and only if no
  object is found under the prefix of the run id and the attempt; when at least one is
  found, every object found is downloaded and extracted, in listing order, and the loop
  raises nothing. The calls into the libraries are taken to succeed, as said above; the
  assertion of \<^verbatim>\<open>unzip\<close> and the name given to \<^verbatim>\<open>with_name\<close> are checked.
\<close>

theorem s3_reports_raise_iff_none_found:
  "(fst (download_and_extract_s3_reports bucket workflow_run_id workflow_run_attempt w) \<noteq> None
      \<longleftrightarrow> objects_filter bucket (s3_prefix workflow_run_id workflow_run_attempt) = [])
   \<and> download_and_extract_s3_reports bucket workflow_run_id workflow_run_attempt w =
     (if objects_filter bucket (s3_prefix workflow_run_id workflow_run_attempt) = []
      then (Some RuntimeError, w)
      else (None, w @ concat (map s3_effects
              (objects_filter bucket (s3_prefix workflow_run_id workflow_run_attempt)))))"
  by (simp add: download_and_extract_s3_reports_def Let_def
      s3_loop_listed [OF objects_filter_listed])

theorem s3_reports_raise_iff_none_found_witness:
  "download_and_extract_s3_reports example_bucket 7 4 [] = (Some RuntimeError, [])
   \<and> download_and_extract_s3_reports example_bucket 7 2 [] =
       (None,
        [Print (DownloadingAndExtracting [''test-reports-a.zip'']),
         Write [''test-reports-a.zip''] ''A'',
         ExtractAll [''test-reports-a.zip''] [''unzipped-test-reports-a''],
         Print (DownloadingAndExtracting [''test-reports-c.zip'']),
         Write [''test-reports-c.zip''] ''C'',
         ExtractAll [''test-reports-c.zip''] [''unzipped-test-reports-c'']])"
  using s3_reports_raise_iff_none_found [of example_bucket 7 4 "[]"]
    s3_reports_raise_iff_none_found [of example_bucket 7 2 "[]"]
  by (simp add: example_listing example_listing_none s3_effects_def Path_def path_name_def
      path_stem_def py_rpartition_def py_startswith_def Let_def)

section \<open>Artifacts of another run attempt\<close>

text \<open>
  When every atom that starts with \<^verbatim>\<open>runattempt\<close> can be read, the loop over the
  atoms only prints, one message for each atom of another attempt. A name with such an
  atom is not empty, so the archive written under it can be extracted.
\<close>

lemma check_run_attempt_readable:
  assumes "atoms_readable atoms"
  shows "check_run_attempt artifact_name workflow_run_attempt atoms w
           = (None, w @ mismatch_log artifact_name workflow_run_attempt atoms)"
  using assms
proof (induction atoms arbitrary: w)
  case Nil
  then show ?case by (simp add: mismatch_log_def)
next
  case (Cons atom atoms)
  from Cons.prems have rest: "atoms_readable atoms"
    by (simp add: atoms_readable_def)
  have ih: "check_run_attempt artifact_name workflow_run_attempt atoms w'
           = (None, w' @ mismatch_log artifact_name workflow_run_attempt atoms)" for w'
    using rest by (rule Cons.IH)
  show ?case
  proof (cases "py_startswith atom ''runattempt''")
    case False
    then show ?thesis by (simp add: ih mismatch_log_def)
  next
    case True
    with Cons.prems obtain found where f: "py_int (drop (length ''runattempt'') atom) = Some found"
      by (auto simp: atoms_readable_def)
    with True show ?thesis by (simp add: ih mismatch_log_def)
  qed
qed

lemma mismatch_logged:
  assumes "atom \<in> set atoms" "py_startswith atom ''runattempt''"
    and "py_int (drop (length ''runattempt'') atom) = Some found"
    and "found \<noteq> workflow_run_attempt"
  shows "Print (SkippingInvalidRunAttempt artifact_name workflow_run_attempt found)
           \<in> set (mismatch_log artifact_name workflow_run_attempt atoms)"
  using assms by (force simp: mismatch_log_def)

lemma named_artifact:
  assumes "atom \<in> set (py_split CHR ''-'' (path_str (Path s)))"
    and "py_startswith atom ''runattempt''"
  shows "path_name (Path s) \<noteq> []"
proof (rule ccontr)
  let ?comps = "filter (\<lambda>p. p \<noteq> [] \<and> p \<noteq> ''.'') (py_split CHR ''/'' s)"
  assume "\<not> path_name (Path s) \<noteq> []"
  then have n: "path_name (Path s) = []" by simp
  have e: "?comps = []"
  proof (rule ccontr)
    assume ne: "?comps \<noteq> []"
    then have "last ?comps \<in> set ?comps" by (rule last_in_set)
    from Path_components [OF this] have "last ?comps \<noteq> []" by simp
    with ne n show False by (simp add: path_name_Path Let_def)
  qed
  then have "Path s = [] \<or> Path s = [''/''] \<or> Path s = [''//'']"
    by (auto simp: Path_def)
  then have "path_str (Path s) = ''.'' \<or> path_str (Path s) = ''/'' \<or> path_str (Path s) = ''//''"
    by (auto simp: path_str_def)
  then have "atom = ''.'' \<or> atom = ''/'' \<or> atom = ''//''"
    using assms(1) by auto
  with assms(2) show False
    by (auto simp: py_startswith_def)
qed

lemma example_atoms: "py_split CHR ''-'' (path_str (Path ''test-reports-runattempt2-linux.zip''))
   = [''test'', ''reports'', ''runattempt2'', ''linux.zip'']"
  by (simp add: Path_def path_str_def py_startswith_def)

lemma example_atoms_unreadable: "py_split CHR ''-'' (path_str (Path ''test-reports-runattempt2-runattemptx''))
   = [''test'', ''reports'', ''runattempt2'', ''runattemptx'']"
  by (simp add: Path_def path_str_def py_startswith_def)

text \<open>
  Claim C5: for every artifact whose name, split at hyphens, has a token
  \<^verbatim>\<open>runattempt<N>\<close> with \<open>N\<close> different from the requested run attempt,
  \<^verbatim>\<open>download_and_extract_artifact\<close> only logs the mismatch and still downloads and
  extracts the artifact.

  This fails for a name that has, besides such a token, a token that starts with
  \<^verbatim>\<open>runattempt\<close> and does not continue with an integer: reading that token raises
  a \<^verbatim>\<open>ValueError\<close> after the mismatch was logged, and nothing is downloaded.
\<close>

theorem unreadable_atom_counterexample:
  "''runattempt2'' \<in> set (py_split CHR ''-'' (path_str (Path ''test-reports-runattempt2-runattemptx'')))
   \<and> py_int (drop (length ''runattempt'') ''runattempt2'') = Some 2
   \<and> download_and_extract_artifact example_environ example_requests_get
        (Path ''test-reports-runattempt2-runattemptx'') ''https://example.org/artifact'' 1 []
      = (Some ValueError,
         [Print (SkippingInvalidRunAttempt [''test-reports-runattempt2-runattemptx''] 1 2)])"
  by (simp add: example_atoms_unreadable download_and_extract_artifact_def py_startswith_def eval_defs)
     (simp add: Path_def py_startswith_def)

text \<open>
  Claim C5 as amended: for every artifact whose name, split at hyphens, has a token
  \<^verbatim>\<open>runattempt<N>\<close> with \<open>N\<close> different from the requested run attempt, and in
  whose name every token that starts with \<^verbatim>\<open>runattempt\<close> continues with an integer,
  \<^verbatim>\<open>download_and_extract_artifact\<close>, with \<^verbatim>\<open>GITHUB_TOKEN\<close> set, only logs the
  mismatch and still downloads and extracts the artifact: the effects are the messages
  for the tokens of another attempt, then the download message, the file written with
  the content of the response, and the extraction.
\<close>

theorem mismatch_only_logged:
  assumes "atom \<in> set (py_split CHR ''-'' (path_str (Path s)))"
    and "py_startswith atom ''runattempt''"
    and "py_int (drop (length ''runattempt'') atom) = Some found"
    and "found \<noteq> workflow_run_attempt"
    and "atoms_readable (py_split CHR ''-'' (path_str (Path s)))"
    and "environ ''GITHUB_TOKEN'' = Some token"
  shows "download_and_extract_artifact environ requests_get (Path s) url workflow_run_attempt w
           = (None,
              w @ mismatch_log (Path s) workflow_run_attempt (py_split CHR ''-'' (path_str (Path s)))
                @ [Print (DownloadingAndExtracting (Path s)),
                   Write (Path s)
                     (requests_get url
                        [(''Accept'', ''application/vnd.github.v3+json''),
                         (''Authorization'', ''token '' @ token)]),
                   ExtractAll (Path s) (butlast (Path s) @ [''unzipped-'' @ path_stem (Path s)])])
         \<and> Print (SkippingInvalidRunAttempt (Path s) workflow_run_attempt found)
             \<in> set (mismatch_log (Path s) workflow_run_attempt
                      (py_split CHR ''-'' (path_str (Path s))))"
proof -
  let ?atoms = "py_split CHR ''-'' (path_str (Path s))"
  let ?log = "mismatch_log (Path s) workflow_run_attempt ?atoms"
  let ?content = "requests_get url
                        [(''Accept'', ''application/vnd.github.v3+json''),
                         (''Authorization'', ''token '' @ token)]"
  have ne: "path_name (Path s) \<noteq> []"
    using assms(1,2) by (rule named_artifact)
  from path_name_Path_component [OF ne] have nsl: "CHR ''/'' \<notin> set (path_name (Path s))"
    by simp
  have uz: "unzip (Path s) ((w @ ?log @ [Print (DownloadingAndExtracting (Path s))])
                      @ [Write (Path s) ?content])
      = (None, (w @ ?log @ [Print (DownloadingAndExtracting (Path s))])
               @ [Write (Path s) ?content,
                  ExtractAll (Path s) (butlast (Path s) @ [''unzipped-'' @ path_stem (Path s)])])"
    using ne nsl by (rule unzip_written)
  have run: "download_and_extract_artifact environ requests_get (Path s) url workflow_run_attempt w
      = (None, w @ ?log @ [Print (DownloadingAndExtracting (Path s)), Write (Path s) ?content,
           ExtractAll (Path s) (butlast (Path s) @ [''unzipped-'' @ path_stem (Path s)])])"
    using uz
    by (simp add: download_and_extract_artifact_def check_run_attempt_readable [OF assms(5)]
        get_request_headers_def assms(6) Let_def)
  have "Print (SkippingInvalidRunAttempt (Path s) workflow_run_attempt found) \<in> set ?log"
    using assms(1-4) by (rule mismatch_logged)
  with run show ?thesis by simp
qed

theorem mismatch_only_logged_witness:
  "''runattempt2'' \<in> set (py_split CHR ''-'' (path_str (Path ''test-reports-runattempt2-linux.zip'')))
   \<and> py_startswith ''runattempt2'' ''runattempt''
   \<and> py_int (drop (length ''runattempt'') ''runattempt2'') = Some 2
   \<and> atoms_readable (py_split CHR ''-'' (path_str (Path ''test-reports-runattempt2-linux.zip'')))
   \<and> example_environ ''GITHUB_TOKEN'' = Some ''secret''
   \<and> download_and_extract_artifact example_environ example_requests_get
        (Path ''test-reports-runattempt2-linux.zip'') ''https://example.org/artifact'' 1 []
      = (None,
         [Print (SkippingInvalidRunAttempt [''test-reports-runattempt2-linux.zip''] 1 2),
          Print (DownloadingAndExtracting [''test-reports-runattempt2-linux.zip'']),
          Write [''test-reports-runattempt2-linux.zip''] ''PK'',
          ExtractAll [''test-reports-runattempt2-linux.zip'']
            [''unzipped-test-reports-runattempt2-linux'']])"
proof -
  let ?s = "''test-reports-runattempt2-linux.zip''"
  have a: "''runattempt2'' \<in> set (py_split CHR ''-'' (path_str (Path ?s)))"
    by (simp add: example_atoms)
  have b: "py_startswith ''runattempt2'' ''runattempt''"
    by (simp add: py_startswith_def)
  have c: "py_int (drop (length ''runattempt'') ''runattempt2'') = Some 2"
    by (simp add: eval_defs)
  have d: "(2::int) \<noteq> 1" by simp
  have e: "atoms_readable (py_split CHR ''-'' (path_str (Path ?s)))"
    by (simp add: example_atoms atoms_readable_def py_startswith_def eval_defs)
  have f: "example_environ ''GITHUB_TOKEN'' = Some ''secret''"
    by (simp add: example_environ_def)
  have p: "Path ?s = [?s]"
    by (simp add: Path_def py_startswith_def)
  have atoms: "py_split CHR ''-'' (path_str [?s]) = [''test'', ''reports'', ''runattempt2'', ''linux.zip'']"
    using example_atoms by (simp only: p)
  have log: "mismatch_log [?s] 1 [''test'', ''reports'', ''runattempt2'', ''linux.zip'']
      = [Print (SkippingInvalidRunAttempt [?s] 1 2)]"
    by (simp add: mismatch_log_def py_startswith_def eval_defs)
  have stem: "path_stem [?s] = ''test-reports-runattempt2-linux''"
    by (simp add: path_stem_def path_name_def py_rpartition_def)
  show ?thesis
    using a b c e f
      mismatch_only_logged [where atom = "''runattempt2''" and s = ?s and found = 2
        and workflow_run_attempt = 1 and environ = example_environ and token = "''secret''"
        and requests_get = example_requests_get and url = "''https://example.org/artifact''"
        and w = "[]"]
    by (simp add: p atoms log stem example_requests_get_def)
qed

end
